theory Spec2Isabelle
  imports Complex_Main
begin

section \<open>Values loaded from YAML\<close>

text \<open>
  The script works on whatever \<^verbatim>\<open>yaml.safe_load\<close> returns.  The values are modelled by
  the JSON-like core of YAML: null, booleans, integers, floats, strings, sequences and
  mappings.  Strings are character lists; a mapping is an association list in declaration
  order whose keys are strings (a Python dict keeps insertion order and has no duplicate
  key).  A finite float is represented by its exact rational value.
\<close>

datatype pyval =
    PNone
  | PBool bool
  | PInt int
  | PFloat rat
  | PStr string
  | PList "pyval list"
  | PDict "(string \<times> pyval) list"

text \<open>The exceptions the script can end with.  \<open>SystemExit\<close> carries the exit status.\<close>

datatype exn = SystemExit int | KeyError | TypeError | AttributeError | OSError

abbreviation newline :: string where
  "newline \<equiv> [CHR 0x0A]"

subsection \<open>Python built-ins used by the script\<close>

text \<open>Numeric value of a number (\<open>bool\<close> is a subtype of \<open>int\<close> in Python).\<close>

fun num_of :: "pyval \<Rightarrow> rat option" where
  "num_of (PBool b) = Some (if b then 1 else 0)"
| "num_of (PInt i) = Some (of_int i)"
| "num_of (PFloat r) = Some r"
| "num_of _ = None"

text \<open>
  Python's \<^verbatim>\<open>==\<close>: numbers compare by value across bool, int and float, strings with
  strings, lists element by element, dicts as mappings (order is irrelevant), and values
  of unrelated types are unequal.
\<close>

fun py_eq :: "pyval \<Rightarrow> pyval \<Rightarrow> bool"
  and py_eq_list :: "pyval list \<Rightarrow> pyval list \<Rightarrow> bool"
  and py_sub_dict :: "(string \<times> pyval) list \<Rightarrow> (string \<times> pyval) list \<Rightarrow> bool" where
  "py_eq PNone v = (v = PNone)"
| "py_eq (PBool b) v = (num_of v = Some (if b then 1 else 0))"
| "py_eq (PInt i) v = (num_of v = Some (of_int i))"
| "py_eq (PFloat r) v = (num_of v = Some r)"
| "py_eq (PStr s) v = (v = PStr s)"
| "py_eq (PList xs) v = (case v of PList ys \<Rightarrow> py_eq_list xs ys | _ \<Rightarrow> False)"
| "py_eq (PDict kvs) v =
     (case v of PDict kvs' \<Rightarrow> length kvs = length kvs' \<and> py_sub_dict kvs kvs' | _ \<Rightarrow> False)"
| "py_eq_list [] ys = (ys = [])"
| "py_eq_list (x # xs) ys =
     (case ys of [] \<Rightarrow> False | y # ys' \<Rightarrow> py_eq x y \<and> py_eq_list xs ys')"
| "py_sub_dict [] kvs' = True"
| "py_sub_dict ((k, x) # kvs) kvs' =
     ((case map_of kvs' k of None \<Rightarrow> False | Some y \<Rightarrow> py_eq x y) \<and> py_sub_dict kvs kvs')"

text \<open>\<^verbatim>\<open>s.startswith(t)\<close> and the substring test \<^verbatim>\<open>t in s\<close> on strings.\<close>

fun startswith :: "string \<Rightarrow> string \<Rightarrow> bool" where
  "startswith s [] = True"
| "startswith [] (c # t) = False"
| "startswith (d # s) (c # t) = (d = c \<and> startswith s t)"

fun str_contains :: "string \<Rightarrow> string \<Rightarrow> bool" where
  "str_contains [] t = (t = [])"
| "str_contains (d # s) t = (startswith (d # s) t \<or> str_contains s t)"

text \<open>
  \<^verbatim>\<open>x in c\<close>.  On a list it is \<^verbatim>\<open>any(x is e or x == e for e in c)\<close>; on a string the left
  operand must be a string and the test is for a substring; on a dict it is key membership
  (an unhashable left operand raises); every other value is not a container.
\<close>

fun py_in :: "pyval \<Rightarrow> pyval \<Rightarrow> exn + bool" where
  "py_in x (PList ys) = Inr (list_ex (py_eq x) ys)"
| "py_in x (PStr s) = (case x of PStr t \<Rightarrow> Inr (str_contains s t) | _ \<Rightarrow> Inl TypeError)"
| "py_in x (PDict kvs) =
     (case x of
        PStr t \<Rightarrow> Inr (t \<in> set (map fst kvs))
      | PList _ \<Rightarrow> Inl TypeError
      | PDict _ \<Rightarrow> Inl TypeError
      | _ \<Rightarrow> Inr False)"
| "py_in x _ = Inl TypeError"

text \<open>
  \<^verbatim>\<open>d.get(key, default)\<close>: only a dict has the method; the script calls it on values
  that are not \<open>None\<close>.
\<close>

fun py_get :: "pyval \<Rightarrow> string \<Rightarrow> pyval \<Rightarrow> exn + pyval" where
  "py_get (PDict kvs) key dflt = Inr (case map_of kvs key of None \<Rightarrow> dflt | Some v \<Rightarrow> v)"
| "py_get _ key dflt = Inl AttributeError"

text \<open>
  \<^verbatim>\<open>v[key]\<close> with a string key: a lookup on a dict, a \<open>TypeError\<close> on everything else
  (lists and strings want integer indices, the other values are not subscriptable).
\<close>

fun py_getitem :: "pyval \<Rightarrow> string \<Rightarrow> exn + pyval" where
  "py_getitem (PDict kvs) key = (case map_of kvs key of None \<Rightarrow> Inl KeyError | Some v \<Rightarrow> Inr v)"
| "py_getitem _ key = Inl TypeError"

text \<open>\<^verbatim>\<open>d.items()\<close>, in insertion order.\<close>

fun py_items :: "pyval \<Rightarrow> exn + (string \<times> pyval) list" where
  "py_items (PDict kvs) = Inr kvs"
| "py_items _ = Inl AttributeError"

text \<open>What a \<^verbatim>\<open>for\<close> loop iterates over.\<close>

fun py_iter :: "pyval \<Rightarrow> exn + pyval list" where
  "py_iter (PList xs) = Inr xs"
| "py_iter (PStr s) = Inr (map (\<lambda>c. PStr [c]) s)"
| "py_iter (PDict kvs) = Inr (map (\<lambda>kv. PStr (fst kv)) kvs)"
| "py_iter _ = Inl TypeError"

text \<open>Truth value of an object, as \<^verbatim>\<open>not x\<close> sees it.\<close>

fun truthy :: "pyval \<Rightarrow> bool" where
  "truthy PNone = False"
| "truthy (PBool b) = b"
| "truthy (PInt i) = (i \<noteq> 0)"
| "truthy (PFloat r) = (r \<noteq> 0)"
| "truthy (PStr s) = (s \<noteq> [])"
| "truthy (PList xs) = (xs \<noteq> [])"
| "truthy (PDict kvs) = (kvs \<noteq> [])"

text \<open>Decimal digits of a natural number.\<close>

fun digits :: "nat \<Rightarrow> string" where
  "digits n =
     (if n < 10 then [''0123456789'' ! n]
      else digits (n div 10) @ [''0123456789'' ! (n mod 10)])"

declare digits.simps [simp del]

text \<open>
  \<^verbatim>\<open>str(v)\<close>.  A string is returned as it is, and \<open>None\<close>, booleans and integers have
  their usual text.  The text of a float, a list or a dict is Python's \<^verbatim>\<open>repr\<close>, which is
  not part of the script: it is the parameter \<open>repr\<close>.
\<close>

fun py_str :: "(pyval \<Rightarrow> string) \<Rightarrow> pyval \<Rightarrow> string" where
  "py_str repr (PStr s) = s"
| "py_str repr PNone = ''None''"
| "py_str repr (PBool b) = (if b then ''True'' else ''False'')"
| "py_str repr (PInt i) = (if i < 0 then ''-'' @ digits (nat (- i)) else digits (nat i))"
| "py_str repr v = repr v"

text \<open>\<^verbatim>\<open>a + b\<close> where \<open>a\<close> is a string: \<open>b\<close> must be a string too.\<close>

fun str_add :: "string \<Rightarrow> pyval \<Rightarrow> exn + string" where
  "str_add a (PStr b) = Inr (a @ b)"
| "str_add a _ = Inl TypeError"


text \<open>
  \<^verbatim>\<open>os.path.join(a, b)\<close> on POSIX: an absolute second component replaces the first,
  otherwise the components are joined by one slash unless the first is empty or already
  ends in one.
\<close>

definition path_join :: "string \<Rightarrow> string \<Rightarrow> string" where
  "path_join a b =
     (if startswith b ''/'' then b
      else if a = [] \<or> last a = CHR ''/'' then a @ b
      else a @ ''/'' @ b)"

section \<open>The process and its environment\<close>

text \<open>
  What the script does to the outside is recorded in order: text written to standard
  output, text written to standard error, and files written (path and whole content).
\<close>

datatype event = Stdout string | Stderr string | WriteFile string string

text \<open>
  The environment: the regular files with their contents, the existing directories, the
  paths the operating system lets the process open for writing (creating or truncating
  the file), and the record of what the process has done so far.
\<close>

record world =
  files :: "string \<rightharpoonup> string"
  dirs :: "string set"
  writable :: "string \<Rightarrow> bool"
  trace :: "event list"

definition emit :: "event \<Rightarrow> world \<Rightarrow> world" where
  "emit e w = w\<lparr>trace := trace w @ [e]\<rparr>"

text \<open>\<^verbatim>\<open>os.path.exists\<close>.\<close>

definition path_exists :: "world \<Rightarrow> string \<Rightarrow> bool" where
  "path_exists w p = (p \<in> dom (files w) \<or> p \<in> dirs w)"

text \<open>
  \<^verbatim>\<open>with open(p, 'w') as f: f.writelines(lines)\<close>: opening truncates, so the file holds
  exactly the concatenated lines afterwards.
\<close>

definition write_lines :: "string \<Rightarrow> string list \<Rightarrow> world \<Rightarrow> (exn + unit) \<times> world" where
  "write_lines p lines w =
     (if writable w p
      then (Inr (), emit (WriteFile p (concat lines)) (w\<lparr>files := (files w)(p \<mapsto> concat lines)\<rparr>))
      else (Inl OSError, w))"

section \<open>The script\<close>

text \<open>\<^verbatim>\<open>error(msg)\<close>: one message on standard error, then exit with status 1.\<close>

definition error :: "string \<Rightarrow> world \<Rightarrow> (exn + 'a) \<times> world" where
  "error msg w = (Inl (SystemExit 1), emit (Stderr (''ERROR: '' @ msg @ newline)) w)"

text \<open>
  The value \<^verbatim>\<open>is_supported\<close> returns (lines 27 to 29).  \<^verbatim>\<open>and\<close> binds tighter than
  \<^verbatim>\<open>or\<close> and both short-circuit: \<open>include_on\<close> is only looked at when the architecture
  is not excluded.
\<close>

definition is_supported_result :: "pyval \<Rightarrow> pyval \<Rightarrow> exn + bool" where
  "is_supported_result package arch =
     (if package = PNone then Inr True
      else case py_get package ''exclude_on'' (PList []) of
        Inl e \<Rightarrow> Inl e
      | Inr excl \<Rightarrow>
          (case py_in arch excl of
             Inl e \<Rightarrow> Inl e
           | Inr excluded \<Rightarrow>
               if excluded then Inr False
               else (case py_get package ''include_on'' (PList [arch]) of
                       Inl e \<Rightarrow> Inl e
                     | Inr incl \<Rightarrow> py_in arch incl)))"

text \<open>\<^verbatim>\<open>is_supported\<close>: line 26 prints both arguments, then the value is computed.\<close>

definition is_supported ::
  "(pyval \<Rightarrow> string) \<Rightarrow> pyval \<Rightarrow> pyval \<Rightarrow> world \<Rightarrow> (exn + bool) \<times> world" where
  "is_supported repr package arch w =
     (is_supported_result package arch,
      emit (Stdout (py_str repr package @ '' '' @ py_str repr arch @ newline)) w)"

text \<open>\<^verbatim>\<open>make_atom\<close>.\<close>

definition make_atom :: "(pyval \<Rightarrow> string) \<Rightarrow> string \<Rightarrow> pyval \<Rightarrow> exn + string" where
  "make_atom repr package_name package_dict0 =
     (let atom = package_name;
          package_dict = (if \<not> truthy package_dict0 then PDict [] else package_dict0)
      in case py_in (PStr ''version'') package_dict of
        Inl e \<Rightarrow> Inl e
      | Inr has_version \<Rightarrow>
          (case (if has_version
                 then (case py_getitem package_dict ''version'' of
                         Inl e \<Rightarrow> Inl e
                       | Inr v \<Rightarrow> Inr (''='' @ atom @ ''-'' @ py_str repr v))
                 else Inr atom) of
             Inl e \<Rightarrow> Inl e
           | Inr atom1 \<Rightarrow>
               (case py_in (PStr ''overlay'') package_dict of
                  Inl e \<Rightarrow> Inl e
                | Inr has_overlay \<Rightarrow>
                    (case (if has_overlay
                           then (case py_getitem package_dict ''overlay'' of
                                   Inl e \<Rightarrow> Inl e
                                 | Inr ov \<Rightarrow>
                                     (case str_add ''::'' ov of
                                        Inl e \<Rightarrow> Inl e
                                      | Inr suffix \<Rightarrow> Inr (atom1 @ suffix)))
                           else Inr atom1) of
                       Inl e \<Rightarrow> Inl e
                     | Inr atom2 \<Rightarrow> Inr (atom2 @ newline)))))"

text \<open>
  \<^verbatim>\<open>parse_yaml_file\<close>.  \<^verbatim>\<open>yaml.safe_load\<close> is a library function: the parameter
  \<open>safe_load\<close> maps the file's content to the loaded value, or to the text of the
  \<open>YAMLError\<close> it raises.  Only \<open>YAMLError\<close> is caught (line 60); an exception of the two
  subscripts (lines 58 and 59) leaves the function.
\<close>

definition parse_yaml_file ::
  "(string \<Rightarrow> string + pyval) \<Rightarrow> string \<Rightarrow> world \<Rightarrow> (exn + pyval \<times> pyval) \<times> world" where
  "parse_yaml_file safe_load filename w =
     (if \<not> path_exists w filename
      then error (''input file '' @ filename @ '' does not exist!'') w
      else case files w filename of
        None \<Rightarrow> (Inl OSError, w)
      | Some content \<Rightarrow>
          (case safe_load content of
             Inl diagnostic \<Rightarrow> error (''YAML file could not be parsed.'' @ newline @ diagnostic) w
           | Inr y \<Rightarrow>
               (case py_getitem y ''eessi_archs'' of
                  Inl e \<Rightarrow> (Inl e, w)
                | Inr archs \<Rightarrow>
                    (case py_getitem y ''eessi_sets'' of
                       Inl e \<Rightarrow> (Inl e, w)
                     | Inr sets \<Rightarrow> (Inr (archs, sets), w)))))"

text \<open>
  The list comprehension of lines 98 to 102: for each package in declaration order the
  filter \<^verbatim>\<open>is_supported\<close> runs first, and \<^verbatim>\<open>make_atom\<close> only if it returned true.
\<close>

fun supported_packages ::
  "(pyval \<Rightarrow> string) \<Rightarrow> (string \<times> pyval) list \<Rightarrow> pyval \<Rightarrow> world \<Rightarrow> (exn + string list) \<times> world" where
  "supported_packages repr [] arch w = (Inr [], w)"
| "supported_packages repr ((package_name, package_dict) # rest) arch w =
     (case is_supported repr package_dict arch w of
        (Inl e, w1) \<Rightarrow> (Inl e, w1)
      | (Inr ok, w1) \<Rightarrow>
          if ok
          then (case make_atom repr package_name package_dict of
                  Inl e \<Rightarrow> (Inl e, w1)
                | Inr atom \<Rightarrow>
                    (case supported_packages repr rest arch w1 of
                       (Inl e, w2) \<Rightarrow> (Inl e, w2)
                     | (Inr atoms, w2) \<Rightarrow> (Inr (atom # atoms), w2)))
          else supported_packages repr rest arch w1)"

text \<open>The body of the inner loop (lines 98 to 106) for one set and one architecture.\<close>

definition write_set_file ::
  "(pyval \<Rightarrow> string) \<Rightarrow> string \<Rightarrow> string \<Rightarrow> pyval \<Rightarrow> pyval \<Rightarrow> world \<Rightarrow> (exn + unit) \<times> world" where
  "write_set_file repr setsdir set_name set_def arch w =
     (case py_getitem set_def ''packages'' of
        Inl e \<Rightarrow> (Inl e, w)
      | Inr packages \<Rightarrow>
          (case py_items packages of
             Inl e \<Rightarrow> (Inl e, w)
           | Inr items \<Rightarrow>
               (case supported_packages repr items arch w of
                  (Inl e, w1) \<Rightarrow> (Inl e, w1)
                | (Inr atoms, w1) \<Rightarrow>
                    (let set_filename = path_join setsdir (set_name @ ''-'' @ py_str repr arch)
                     in case write_lines set_filename atoms w1 of
                       (Inl e, w2) \<Rightarrow> (Inl e, w2)
                     | (Inr u, w2) \<Rightarrow>
                         (Inr (), emit (Stdout (''Created set file '' @ set_filename @ ''.'' @ newline)) w2)))))"

text \<open>The inner loop, over the architectures.\<close>

fun arch_loop ::
  "(pyval \<Rightarrow> string) \<Rightarrow> string \<Rightarrow> string \<Rightarrow> pyval \<Rightarrow> pyval list \<Rightarrow> world \<Rightarrow> (exn + unit) \<times> world" where
  "arch_loop repr setsdir set_name set_def [] w = (Inr (), w)"
| "arch_loop repr setsdir set_name set_def (arch # archs) w =
     (case write_set_file repr setsdir set_name set_def arch w of
        (Inl e, w1) \<Rightarrow> (Inl e, w1)
      | (Inr u, w1) \<Rightarrow> arch_loop repr setsdir set_name set_def archs w1)"

text \<open>The outer loop, over the sets; \<^verbatim>\<open>for arch in archs\<close> starts anew for each set.\<close>

fun set_loop ::
  "(pyval \<Rightarrow> string) \<Rightarrow> string \<Rightarrow> pyval \<Rightarrow> (string \<times> pyval) list \<Rightarrow> world \<Rightarrow> (exn + unit) \<times> world" where
  "set_loop repr setsdir archs [] w = (Inr (), w)"
| "set_loop repr setsdir archs ((set_name, set_def) # sets) w =
     (case py_iter archs of
        Inl e \<Rightarrow> (Inl e, w)
      | Inr arch_list \<Rightarrow>
          (case arch_loop repr setsdir set_name set_def arch_list w of
             (Inl e, w1) \<Rightarrow> (Inl e, w1)
           | (Inr u, w1) \<Rightarrow> set_loop repr setsdir archs sets w1))"

text \<open>The command line, after \<^verbatim>\<open>parse_args\<close>: both options are required.\<close>

record args =
  yamlfile :: string
  setsdir :: string

text \<open>\<^verbatim>\<open>main\<close>.\<close>

definition main ::
  "(pyval \<Rightarrow> string) \<Rightarrow> (string \<Rightarrow> string + pyval) \<Rightarrow> args \<Rightarrow> world \<Rightarrow> (exn + unit) \<times> world" where
  "main repr safe_load a w =
     (case parse_yaml_file safe_load (yamlfile a) w of
        (Inl e, w1) \<Rightarrow> (Inl e, w1)
      | (Inr (archs, sets), w1) \<Rightarrow>
          if \<not> path_exists w1 (setsdir a)
          then error (''output directory '' @ setsdir a @ '' does not exist.'') w1
          else (case py_items sets of
                  Inl e \<Rightarrow> (Inl e, w1)
                | Inr set_items \<Rightarrow> set_loop repr (setsdir a) archs set_items w1))"


section \<open>Effects of a run\<close>

text \<open>
  What a sequence of events does to the files: a write replaces the file's content, output
  on the standard streams leaves the files alone.
\<close>

fun apply_event :: "event \<Rightarrow> (string \<rightharpoonup> string) \<Rightarrow> (string \<rightharpoonup> string)" where
  "apply_event (WriteFile p c) f = f(p \<mapsto> c)"
| "apply_event _ f = f"

text \<open>The environment after the process has performed the given events.\<close>

definition after :: "world \<Rightarrow> event list \<Rightarrow> world" where
  "after w evs = w\<lparr>files := fold apply_event evs (files w), trace := trace w @ evs\<rparr>"

text \<open>The files written by a sequence of events, in order, each with its full content.\<close>

fun writes_of :: "event list \<Rightarrow> (string \<times> string) list" where
  "writes_of [] = []"
| "writes_of (WriteFile p c # evs) = (p, c) # writes_of evs"
| "writes_of (_ # evs) = writes_of evs"

section \<open>Notions used to state the properties\<close>

text \<open>
  The specification's data model: a package entry is absent (\<open>None\<close>) or a mapping in
  which \<open>exclude_on\<close> and \<open>include_on\<close>, when present, are lists, and \<open>overlay\<close>,
  when present, is a string.
\<close>

definition list_or_absent :: "(string \<times> pyval) list \<Rightarrow> string \<Rightarrow> bool" where
  "list_or_absent kvs key =
     (case map_of kvs key of None \<Rightarrow> True | Some (PList xs) \<Rightarrow> True | Some _ \<Rightarrow> False)"

definition str_or_absent :: "(string \<times> pyval) list \<Rightarrow> string \<Rightarrow> bool" where
  "str_or_absent kvs key =
     (case map_of kvs key of None \<Rightarrow> True | Some (PStr s) \<Rightarrow> True | Some _ \<Rightarrow> False)"

fun entry_ok :: "pyval \<Rightarrow> bool" where
  "entry_ok PNone = True"
| "entry_ok (PDict kvs) = (list_or_absent kvs ''exclude_on'' \<and> list_or_absent kvs ''include_on'')"
| "entry_ok _ = False"

fun atom_ok :: "pyval \<Rightarrow> bool" where
  "atom_ok PNone = True"
| "atom_ok (PDict kvs) = str_or_absent kvs ''overlay''"
| "atom_ok _ = False"

text \<open>The attributes of an entry; an absent entry has none.\<close>

fun entry_items :: "pyval \<Rightarrow> (string \<times> pyval) list" where
  "entry_items (PDict kvs) = kvs"
| "entry_items _ = []"

text \<open>The list stored under a key of an entry, or the default when the key is absent.\<close>

definition attr_list :: "pyval \<Rightarrow> string \<Rightarrow> pyval list \<Rightarrow> pyval list" where
  "attr_list entry key dflt =
     (case map_of (entry_items entry) key of Some (PList xs) \<Rightarrow> xs | _ \<Rightarrow> dflt)"

text \<open>
  The two parts of an atom in the specification's words: the name, pinned to the version
  when there is one, and the overlay qualifier when there is one.
\<close>

definition pinned :: "(pyval \<Rightarrow> string) \<Rightarrow> string \<Rightarrow> pyval \<Rightarrow> string" where
  "pinned repr name entry =
     (case map_of (entry_items entry) ''version'' of
        None \<Rightarrow> name
      | Some v \<Rightarrow> ''='' @ name @ ''-'' @ py_str repr v)"

definition qualifier :: "pyval \<Rightarrow> string" where
  "qualifier entry =
     (case map_of (entry_items entry) ''overlay'' of
        Some (PStr ov) \<Rightarrow> ''::'' @ ov
      | _ \<Rightarrow> [])"

text \<open>
  A set definition of the data model: a mapping whose \<open>packages\<close> is a mapping of
  package names to entries of the data model.
\<close>

definition packages_of :: "pyval \<Rightarrow> (string \<times> pyval) list" where
  "packages_of set_def =
     (case py_getitem set_def ''packages'' of Inr (PDict pk) \<Rightarrow> pk | _ \<Rightarrow> [])"

definition set_ok :: "pyval \<Rightarrow> bool" where
  "set_ok set_def =
     (case py_getitem set_def ''packages'' of
        Inr (PDict pk) \<Rightarrow> list_all (\<lambda>(n, e). entry_ok e \<and> atom_ok e) pk
      | _ \<Rightarrow> False)"

text \<open>
  The run the specification describes.  The atoms of a set for an architecture are the
  results of \<^verbatim>\<open>make_atom\<close> for the packages, in declaration order, for which
  \<^verbatim>\<open>is_supported\<close> returns true; the file of a pair is named \<open>set-arch\<close> in the
  output directory and holds these atoms; the files are listed set by set and, within a
  set, architecture by architecture.
\<close>

definition atom_text :: "(pyval \<Rightarrow> string) \<Rightarrow> string \<Rightarrow> pyval \<Rightarrow> string" where
  "atom_text repr n e = (case make_atom repr n e of Inr atom \<Rightarrow> atom | Inl _ \<Rightarrow> [])"

definition atoms_for :: "(pyval \<Rightarrow> string) \<Rightarrow> (string \<times> pyval) list \<Rightarrow> string \<Rightarrow> string list" where
  "atoms_for repr pk arch =
     map (\<lambda>(n, e). atom_text repr n e)
       (filter (\<lambda>(n, e). is_supported_result e (PStr arch) = Inr True) pk)"

definition set_file :: "(pyval \<Rightarrow> string) \<Rightarrow> string \<Rightarrow> string \<Rightarrow> pyval \<Rightarrow> string \<Rightarrow> string \<times> string" where
  "set_file repr dir sn sd arch =
     (path_join dir (sn @ ''-'' @ arch), concat (atoms_for repr (packages_of sd) arch))"

definition expected_files ::
  "(pyval \<Rightarrow> string) \<Rightarrow> string \<Rightarrow> string list \<Rightarrow> (string \<times> pyval) list \<Rightarrow> (string \<times> string) list" where
  "expected_files repr dir archs sets =
     concat (map (\<lambda>(sn, sd). map (set_file repr dir sn sd) archs) sets)"

text \<open>
  The events of one pair: a line printed by each call of \<^verbatim>\<open>is_supported\<close>, the write
  of the set file, and the confirmation; and the events of the whole run.
\<close>

definition pair_events :: "(pyval \<Rightarrow> string) \<Rightarrow> string \<Rightarrow> string \<Rightarrow> pyval \<Rightarrow> string \<Rightarrow> event list" where
  "pair_events repr dir sn sd arch =
     map (\<lambda>(n, e). Stdout (py_str repr e @ '' '' @ arch @ newline)) (packages_of sd) @
     [WriteFile (fst (set_file repr dir sn sd arch)) (snd (set_file repr dir sn sd arch)),
      Stdout (''Created set file '' @ fst (set_file repr dir sn sd arch) @ ''.'' @ newline)]"

definition run_events ::
  "(pyval \<Rightarrow> string) \<Rightarrow> string \<Rightarrow> string list \<Rightarrow> (string \<times> pyval) list \<Rightarrow> event list" where
  "run_events repr dir archs sets =
     concat (map (\<lambda>(sn, sd). concat (map (pair_events repr dir sn sd) archs)) sets)"


subsection \<open>Concrete inputs for the examples\<close>

text \<open>A rendering that agrees with Python on the float 1.2.\<close>

definition repr_example :: "pyval \<Rightarrow> string" where
  "repr_example v = (if v = PFloat (6 / 5) then ''1.2'' else ''?'')"

text \<open>
  Two configurations in YAML flow style: the end-to-end example of the specification, and
  the same with the package excluded on \<open>aarch64\<close>.
\<close>

definition config_example :: string where
  "config_example = ''{eessi_archs: [x86_64, aarch64], eessi_sets: {base: {packages: {bar: null}}}}''"

definition config_exclude_example :: string where
  "config_exclude_example = ''{eessi_archs: [x86_64, aarch64], eessi_sets: {base: {packages: {bar: {exclude_on: [aarch64]}}}}}''"

text \<open>
  A loader that agrees with \<^verbatim>\<open>yaml.safe_load\<close> on the documents of the examples: the
  two configurations, a mapping without \<open>eessi_sets\<close>, and a malformed document (its
  diagnostic abbreviated to the first line).
\<close>

definition safe_load_example :: "string \<Rightarrow> string + pyval" where
  "safe_load_example content =
     (if content = config_example
      then Inr (PDict [(''eessi_archs'', PList [PStr ''x86_64'', PStr ''aarch64'']),
                       (''eessi_sets'',
                          PDict [(''base'', PDict [(''packages'', PDict [(''bar'', PNone)])])])])
      else if content = config_exclude_example
      then Inr (PDict [(''eessi_archs'', PList [PStr ''x86_64'', PStr ''aarch64'']),
                       (''eessi_sets'',
                          PDict [(''base'', PDict [(''packages'',
                             PDict [(''bar'', PDict [(''exclude_on'', PList [PStr ''aarch64''])])])])])])
      else if content = ''{eessi_archs: [x86_64]}''
      then Inr (PDict [(''eessi_archs'', PList [PStr ''x86_64''])])
      else Inl ''while parsing a flow sequence'')"

text \<open>
  An environment with the input file \<open>sets.yml\<close> of the given content and the directory
  \<open>out\<close>, where every path may be written; and a command line naming that input file.
\<close>

definition world_example :: "string \<Rightarrow> world" where
  "world_example content =
     \<lparr>files = [''sets.yml'' \<mapsto> content], dirs = {''out''}, writable = (\<lambda>p. True), trace = []\<rparr>"

definition args_example :: "string \<Rightarrow> args" where
  "args_example dir = \<lparr>yamlfile = ''sets.yml'', setsdir = dir\<rparr>"

section \<open>Properties\<close>

subsection \<open>Auxiliary facts about the built-ins\<close>

lemma str_in_list: "list_ex (py_eq (PStr a)) xs = (PStr a \<in> set xs)"
  by (induction xs) auto

lemma py_in_dict_key: "py_in (PStr k) (PDict kvs) = Inr (map_of kvs k \<noteq> None)"
  by (simp add: map_of_eq_None_iff)

lemma str_add_not_str: "(\<forall>s. x \<noteq> PStr s) \<Longrightarrow> str_add a x = Inl TypeError"
  by (cases x) simp_all

subsection \<open>The support resolver\<close>

lemma is_supported_result_dict:
  assumes "list_or_absent kvs ''exclude_on''" "list_or_absent kvs ''include_on''"
  shows "is_supported_result (PDict kvs) (PStr a) =
     Inr (PStr a \<notin> set (attr_list (PDict kvs) ''exclude_on'' []) \<and>
          PStr a \<in> set (attr_list (PDict kvs) ''include_on'' [PStr a]))"
  using assms
  by (auto simp: is_supported_result_def list_or_absent_def attr_list_def str_in_list
      split: option.splits pyval.splits)

text \<open>
  Claim C1.  For a package entry of the data model and an architecture string,
  \<^verbatim>\<open>is_supported\<close> returns true exactly when the entry is absent, or the architecture is
  not in \<open>exclude_on\<close> (default: the empty list) and is in \<open>include_on\<close> (default: the
  list holding just this architecture).  In particular an entry with neither key is
  supported on every architecture string whatsoever.
\<close>

theorem is_supported_iff:
  "(entry_ok entry \<longrightarrow>
      fst (is_supported repr entry (PStr a) w) =
        Inr (entry = PNone \<or>
             (PStr a \<notin> set (attr_list entry ''exclude_on'' []) \<and>
              PStr a \<in> set (attr_list entry ''include_on'' [PStr a])))) \<and>
   (map_of kvs ''exclude_on'' = None \<and> map_of kvs ''include_on'' = None \<longrightarrow>
      fst (is_supported repr (PDict kvs) (PStr a) w) = Inr True)"
proof (intro conjI impI)
  assume ok: "entry_ok entry"
  show "fst (is_supported repr entry (PStr a) w) =
        Inr (entry = PNone \<or>
             (PStr a \<notin> set (attr_list entry ''exclude_on'' []) \<and>
              PStr a \<in> set (attr_list entry ''include_on'' [PStr a])))"
  proof (cases entry)
    case PNone
    then show ?thesis by (simp add: is_supported_def is_supported_result_def)
  next
    case (PDict kvs)
    with ok show ?thesis
      by (simp add: is_supported_def is_supported_result_dict)
  qed (use ok in simp_all)
next
  assume "map_of kvs ''exclude_on'' = None \<and> map_of kvs ''include_on'' = None"
  then show "fst (is_supported repr (PDict kvs) (PStr a) w) = Inr True"
    by (simp add: is_supported_def is_supported_result_def)
qed

theorem is_supported_iff_witness:
  "entry_ok (PDict [(''exclude_on'', PList [PStr ''aarch64'']),
                    (''include_on'', PList [PStr ''x86_64'', PStr ''aarch64''])]) \<and>
   fst (is_supported repr_example
          (PDict [(''exclude_on'', PList [PStr ''aarch64'']),
                  (''include_on'', PList [PStr ''x86_64'', PStr ''aarch64''])])
          (PStr ''x86_64'') (world_example [])) = Inr True \<and>
   fst (is_supported repr_example (PDict [(''version'', PStr ''1.2.3'')])
          (PStr ''riscv64'') (world_example [])) = Inr True"
  using is_supported_iff [of "PDict [(''exclude_on'', PList [PStr ''aarch64'']),
                  (''include_on'', PList [PStr ''x86_64'', PStr ''aarch64''])]"
          repr_example "''x86_64''" "world_example []" "[(''version'', PStr ''1.2.3'')]"]
    is_supported_iff [of PNone repr_example "''riscv64''" "world_example []"
          "[(''version'', PStr ''1.2.3'')]"]
  by (simp add: list_or_absent_def attr_list_def)

text \<open>
  Claim C2.  Exclusion takes precedence: for an entry that is present and an architecture
  listed in its \<open>exclude_on\<close>, \<^verbatim>\<open>is_supported\<close> returns false, whatever \<open>include_on\<close>
  holds.
\<close>

theorem exclusion_wins:
  assumes "map_of kvs ''exclude_on'' = Some (PList xs)" and "PStr a \<in> set xs"
  shows "fst (is_supported repr (PDict kvs) (PStr a) w) = Inr False"
  using assms by (simp add: is_supported_def is_supported_result_def str_in_list)

theorem exclusion_wins_witness:
  "fst (is_supported repr_example
          (PDict [(''exclude_on'', PList [PStr ''aarch64'']),
                  (''include_on'', PList [PStr ''aarch64''])])
          (PStr ''aarch64'') (world_example [])) = Inr False"
  using exclusion_wins [of "[(''exclude_on'', PList [PStr ''aarch64'']),
                  (''include_on'', PList [PStr ''aarch64''])]" "[PStr ''aarch64'']" "''aarch64''"
                  repr_example "world_example []"]
  by simp

text \<open>
  Claim C5, as the code has it.  The value \<^verbatim>\<open>is_supported\<close> returns depends on the entry
  and the architecture only, and the call changes no file or directory; but it is not
  free of effects: each call writes one line, the entry and the architecture, to standard
  output.
\<close>

theorem is_supported_effect:
  "fst (is_supported repr entry arch w) = fst (is_supported repr entry arch w') \<and>
   files (snd (is_supported repr entry arch w)) = files w \<and>
   dirs (snd (is_supported repr entry arch w)) = dirs w \<and>
   writable (snd (is_supported repr entry arch w)) = writable w \<and>
   trace (snd (is_supported repr entry arch w)) =
     trace w @ [Stdout (py_str repr entry @ '' '' @ py_str repr arch @ newline)]"
  by (simp add: is_supported_def emit_def)

text \<open>
  The claim as stated (no output, no observable effect besides the return value) fails:
  called on an absent entry and \<open>x86_64\<close>, the function leaves the line \<open>None x86_64\<close>
  on standard output.
\<close>

theorem is_supported_prints:
  "snd (is_supported repr_example PNone (PStr ''x86_64'') (world_example [])) \<noteq> world_example [] \<and>
   trace (snd (is_supported repr_example PNone (PStr ''x86_64'') (world_example []))) =
     [Stdout (''None x86_64'' @ newline)]"
  by (simp add: is_supported_def emit_def world_example_def)

subsection \<open>The atom formatter\<close>

lemma make_atom_dict:
  assumes "str_or_absent kvs ''overlay''"
  shows "make_atom repr name (PDict kvs) =
           Inr (pinned repr name (PDict kvs) @ qualifier (PDict kvs) @ newline)"
proof (cases "kvs = []")
  case True
  then show ?thesis by (simp add: make_atom_def pinned_def qualifier_def)
next
  case False
  with assms show ?thesis
    by (auto simp: make_atom_def Let_def pinned_def qualifier_def str_or_absent_def py_in_dict_key
        simp del: py_in.simps split: option.splits pyval.splits)
qed

lemma make_atom_ok:
  assumes "atom_ok entry"
  shows "make_atom repr name entry = Inr (pinned repr name entry @ qualifier entry @ newline)"
proof (cases entry)
  case PNone
  then show ?thesis by (simp add: make_atom_def pinned_def qualifier_def)
next
  case (PDict kvs)
  with assms show ?thesis by (simp add: make_atom_dict)
qed (use assms in simp_all)

text \<open>
  Claim C3.  For an entry of the data model, \<^verbatim>\<open>make_atom\<close> returns the package name,
  pinned as \<open>=name-version\<close> when the entry has a version, then qualified by
  \<open>::overlay\<close> when it has an overlay, then a newline; the result is a single line when
  none of its parts holds a newline.  An absent and an empty entry give the bare name, and
  the examples of the specification evaluate as it says.
\<close>

theorem make_atom_format:
  "(atom_ok entry \<longrightarrow>
      make_atom repr name entry = Inr (pinned repr name entry @ qualifier entry @ newline)) \<and>
   (atom_ok entry \<and> CHR 0x0A \<notin> set (pinned repr name entry @ qualifier entry) \<longrightarrow>
      (\<exists>line. make_atom repr name entry = Inr (line @ newline) \<and> CHR 0x0A \<notin> set line)) \<and>
   make_atom repr ''foo'' (PDict [(''version'', PStr ''1.2.3''), (''overlay'', PStr ''science'')])
     = Inr (''=foo-1.2.3::science'' @ newline) \<and>
   make_atom repr ''foo'' (PDict [(''version'', PStr ''1.2.3'')]) = Inr (''=foo-1.2.3'' @ newline) \<and>
   make_atom repr ''foo'' (PDict [(''overlay'', PStr ''science'')]) = Inr (''foo::science'' @ newline) \<and>
   make_atom repr ''foo'' (PDict []) = Inr (''foo'' @ newline) \<and>
   make_atom repr ''foo'' PNone = Inr (''foo'' @ newline)"
proof (intro conjI impI)
  assume "atom_ok entry"
  then show "make_atom repr name entry = Inr (pinned repr name entry @ qualifier entry @ newline)"
    by (rule make_atom_ok)
next
  assume "atom_ok entry \<and> CHR 0x0A \<notin> set (pinned repr name entry @ qualifier entry)"
  then show "\<exists>line. make_atom repr name entry = Inr (line @ newline) \<and> CHR 0x0A \<notin> set line"
    using make_atom_ok [of entry repr name] by auto
qed (simp_all add: make_atom_def)

theorem make_atom_format_witness:
  "atom_ok (PDict [(''version'', PStr ''1.2.3''), (''overlay'', PStr ''science'')]) \<and>
   CHR 0x0A \<notin> set ''=foo-1.2.3::science'' \<and>
   make_atom repr_example ''foo''
     (PDict [(''version'', PStr ''1.2.3''), (''overlay'', PStr ''science'')])
     = Inr (''=foo-1.2.3::science'' @ newline)"
  using make_atom_format [of "PDict [(''version'', PStr ''1.2.3''), (''overlay'', PStr ''science'')]"
          repr_example "''foo''"]
  by (simp add: str_or_absent_def pinned_def qualifier_def)

text \<open>
  Claim C10.  The version goes through \<^verbatim>\<open>str\<close>, so an entry with a version of any type
  is pinned as \<open>=name-str(version)\<close> and the version never makes \<^verbatim>\<open>make_atom\<close> fail;
  the overlay is concatenated as it is, so an overlay that is not a string raises a
  \<open>TypeError\<close>.
\<close>

theorem version_coerced:
  assumes "map_of kvs ''version'' = Some v"
  shows "(map_of kvs ''overlay'' = None \<longrightarrow>
            make_atom repr name (PDict kvs) = Inr (''='' @ name @ ''-'' @ py_str repr v @ newline)) \<and>
         (\<forall>ov. map_of kvs ''overlay'' = Some (PStr ov) \<longrightarrow>
            make_atom repr name (PDict kvs) =
              Inr (''='' @ name @ ''-'' @ py_str repr v @ ''::'' @ ov @ newline)) \<and>
         (\<forall>x. map_of kvs ''overlay'' = Some x \<and> (\<forall>s. x \<noteq> PStr s) \<longrightarrow>
            make_atom repr name (PDict kvs) = Inl TypeError)"
proof -
  from assms have ne: "kvs \<noteq> []" by auto
  show ?thesis
    using assms ne
    by (auto simp: make_atom_def Let_def py_in_dict_key str_add_not_str simp del: py_in.simps)
qed

theorem version_coerced_witness:
  "make_atom repr_example ''foo'' (PDict [(''version'', PFloat (6 / 5))])
     = Inr (''=foo-1.2'' @ newline) \<and>
   make_atom repr_example ''foo'' (PDict [(''version'', PInt 2), (''overlay'', PStr ''science'')])
     = Inr (''=foo-2::science'' @ newline) \<and>
   make_atom repr_example ''foo'' (PDict [(''version'', PInt 2), (''overlay'', PInt 7)])
     = Inl TypeError"
  using version_coerced [of "[(''version'', PFloat (6 / 5))]" "PFloat (6 / 5)" repr_example "''foo''"]
    version_coerced [of "[(''version'', PInt 2), (''overlay'', PStr ''science'')]" "PInt 2"
      repr_example "''foo''"]
    version_coerced [of "[(''version'', PInt 2), (''overlay'', PInt 7)]" "PInt 2"
      repr_example "''foo''"]
  by (simp add: repr_example_def digits.simps)

subsection \<open>The input loader\<close>

text \<open>
  Claim C4, at a concrete input.  A well-formed document without \<open>eessi_sets\<close> makes
  \<^verbatim>\<open>parse_yaml_file\<close> end with an uncaught \<open>KeyError\<close> and nothing written to standard
  error, where a malformed document gives the formatted error with the parser's
  diagnostic and exit status 1.
\<close>

theorem parse_yaml_file_missing_key:
  "parse_yaml_file safe_load_example ''sets.yml'' (world_example ''{eessi_archs: [x86_64]}'')
     = (Inl KeyError, world_example ''{eessi_archs: [x86_64]}'') \<and>
   parse_yaml_file safe_load_example ''sets.yml'' (world_example ''{eessi_archs: ['')
     = (Inl (SystemExit 1),
        emit (Stderr (''ERROR: YAML file could not be parsed.'' @ newline @
                      ''while parsing a flow sequence'' @ newline))
          (world_example ''{eessi_archs: [''))"
  by (simp add: parse_yaml_file_def path_exists_def world_example_def safe_load_example_def config_example_def config_exclude_example_def
      error_def)

subsection \<open>Events and environments\<close>

lemma after_Nil [simp]: "after w [] = w"
  by (simp add: after_def)

lemma after_after [simp]: "after (after w xs) ys = after w (xs @ ys)"
  by (simp add: after_def)

lemma after_fields [simp]:
  "writable (after w evs) = writable w"
  "dirs (after w evs) = dirs w"
  "trace (after w evs) = trace w @ evs"
  "files (after w evs) = fold apply_event evs (files w)"
  by (simp_all add: after_def)

lemma after_inj: "after w xs = after w ys \<Longrightarrow> xs = ys"
  by (drule arg_cong [where f = trace]) simp

lemma emit_Stdout: "emit (Stdout s) w = after w [Stdout s]"
  by (simp add: emit_def after_def)

lemma emit_Stderr: "emit (Stderr s) w = after w [Stderr s]"
  by (simp add: emit_def after_def)

lemma is_supported_after:
  "is_supported repr e arch w =
     (is_supported_result e arch, after w [Stdout (py_str repr e @ '' '' @ py_str repr arch @ newline)])"
  by (simp add: is_supported_def emit_Stdout)

lemma write_lines_after:
  "write_lines p lines w =
     (if writable w p then (Inr (), after w [WriteFile p (concat lines)]) else (Inl OSError, w))"
  by (simp add: write_lines_def emit_def after_def)

lemma writes_of_append [simp]: "writes_of (xs @ ys) = writes_of xs @ writes_of ys"
  by (induction xs rule: writes_of.induct) simp_all

lemma writes_of_concat: "writes_of (concat xss) = concat (map writes_of xss)"
  by (induction xss) simp_all

lemma writes_of_prints [simp]: "writes_of (map (\<lambda>x. Stdout (f x)) xs) = []"
  by (induction xs) simp_all

lemma fold_apply_event: "fold apply_event evs f = foldl (\<lambda>g (p, c). g(p \<mapsto> c)) f (writes_of evs)"
  by (induction evs arbitrary: f rule: writes_of.induct) simp_all

lemma files_after_no_writes: "writes_of evs = [] \<Longrightarrow> files (after w evs) = files w"
  by (simp add: fold_apply_event)

lemma apply_event_add: "apply_event e f = f ++ apply_event e Map.empty"
  by (cases e) simp_all

lemma fold_apply_event_add: "fold apply_event evs f = f ++ fold apply_event evs Map.empty"
proof (induction evs arbitrary: f)
  case Nil
  then show ?case by simp
next
  case (Cons e evs)
  have "fold apply_event (e # evs) f = apply_event e f ++ fold apply_event evs Map.empty"
    using Cons.IH [of "apply_event e f"] by simp
  also have "\<dots> = f ++ (apply_event e Map.empty ++ fold apply_event evs Map.empty)"
    using apply_event_add [of e f] by simp
  also have "\<dots> = f ++ fold apply_event (e # evs) Map.empty"
    using Cons.IH [of "apply_event e Map.empty"] by simp
  finally show ?case .
qed

lemma fold_apply_event_idem:
  "fold apply_event evs (fold apply_event evs f) = fold apply_event evs f"
proof -
  have "fold apply_event evs (fold apply_event evs f) =
          (f ++ fold apply_event evs Map.empty) ++ fold apply_event evs Map.empty"
    using fold_apply_event_add [of evs "fold apply_event evs f"] fold_apply_event_add [of evs f]
    by simp
  also have "\<dots> = f ++ fold apply_event evs Map.empty"
    by (rule ext) (simp add: map_add_def split: option.splits)
  finally show ?thesis using fold_apply_event_add [of evs f] by simp
qed

lemma dom_fold_apply_event: "dom f \<subseteq> dom (fold apply_event evs f)"
proof (induction evs arbitrary: f)
  case Nil
  then show ?case by simp
next
  case (Cons e evs)
  have "dom f \<subseteq> dom (apply_event e f)" by (cases e) auto
  with Cons.IH [of "apply_event e f"] show ?case by auto
qed

lemma path_exists_after: "path_exists w p \<Longrightarrow> path_exists (after w evs) p"
  using dom_fold_apply_event [of "files w" evs] by (auto simp: path_exists_def)

lemma WriteFile_in_dom: "WriteFile p c \<in> set evs \<Longrightarrow> p \<in> dom (fold apply_event evs f)"
proof (induction evs arbitrary: f)
  case Nil
  then show ?case by simp
next
  case (Cons e evs)
  show ?case
  proof (cases "WriteFile p c \<in> set evs")
    case True
    then show ?thesis using Cons.IH by simp
  next
    case False
    with Cons.prems have "e = WriteFile p c" by simp
    then have "p \<in> dom (apply_event e f)" by simp
    then show ?thesis using dom_fold_apply_event [of "apply_event e f" evs] by auto
  qed
qed

subsection \<open>The orchestrator on a configuration of the data model\<close>

lemma entry_ok_result: "entry_ok e \<Longrightarrow> \<exists>b. is_supported_result e (PStr a) = Inr b"
proof (cases e)
  case PNone
  then show ?thesis by (auto simp: is_supported_result_def)
next
  case (PDict kvs)
  assume "entry_ok e"
  with PDict show ?thesis by (simp add: is_supported_result_dict)
qed simp_all

lemma atom_text_ok: "atom_ok e \<Longrightarrow> make_atom repr n e = Inr (atom_text repr n e)"
  by (simp add: atom_text_def make_atom_ok)

lemma supported_packages_ok:
  assumes "list_all (\<lambda>(n, e). entry_ok e \<and> atom_ok e) pk"
  shows "supported_packages repr pk (PStr a) w =
           (Inr (atoms_for repr pk a),
            after w (map (\<lambda>(n, e). Stdout (py_str repr e @ '' '' @ a @ newline)) pk))"
  using assms
proof (induction pk arbitrary: w)
  case Nil
  then show ?case by (simp add: atoms_for_def)
next
  case (Cons x pk)
  obtain n e where x: "x = (n, e)" by (cases x)
  from Cons.prems x have ok: "entry_ok e" "atom_ok e"
    and rest: "list_all (\<lambda>(n, e). entry_ok e \<and> atom_ok e) pk" by simp_all
  from ok(1) obtain b where b: "is_supported_result e (PStr a) = Inr b"
    using entry_ok_result by blast
  show ?case
    using b x atom_text_ok [OF ok(2)] Cons.IH [OF rest]
    by (cases b) (simp_all add: is_supported_after atoms_for_def)
qed

lemma set_ok_packages:
  assumes "set_ok sd"
  shows "py_getitem sd ''packages'' = Inr (PDict (packages_of sd))"
    and "list_all (\<lambda>(n, e). entry_ok e \<and> atom_ok e) (packages_of sd)"
  using assms
  by (auto simp: set_ok_def packages_of_def split: sum.splits pyval.splits)

lemma write_set_file_ok:
  assumes "set_ok sd" and "writable w (path_join dir (sn @ ''-'' @ a))"
  shows "write_set_file repr dir sn sd (PStr a) w = (Inr (), after w (pair_events repr dir sn sd a))"
  using assms
  by (simp add: write_set_file_def Let_def set_ok_packages supported_packages_ok
      write_lines_after emit_Stdout pair_events_def set_file_def)

lemma arch_loop_ok:
  assumes "set_ok sd" and "\<forall>a\<in>set archs. writable w (path_join dir (sn @ ''-'' @ a))"
  shows "arch_loop repr dir sn sd (map PStr archs) w =
           (Inr (), after w (concat (map (pair_events repr dir sn sd) archs)))"
  using assms
proof (induction archs arbitrary: w)
  case Nil
  then show ?case by simp
next
  case (Cons a archs)
  then show ?case by (simp add: write_set_file_ok)
qed

lemma set_loop_ok:
  assumes "list_all (\<lambda>(sn, sd). set_ok sd) sets"
    and "\<forall>sn\<in>set (map fst sets). \<forall>a\<in>set archs. writable w (path_join dir (sn @ ''-'' @ a))"
  shows "set_loop repr dir (PList (map PStr archs)) sets w =
           (Inr (), after w (run_events repr dir archs sets))"
  using assms
proof (induction sets arbitrary: w)
  case Nil
  then show ?case by (simp add: run_events_def)
next
  case (Cons x sets)
  obtain sn sd where x: "x = (sn, sd)" by (cases x)
  from Cons.prems x have ok: "set_ok sd" and rest: "list_all (\<lambda>(sn, sd). set_ok sd) sets"
    by simp_all
  from Cons.prems(2) x have wr: "\<forall>a\<in>set archs. writable w (path_join dir (sn @ ''-'' @ a))"
    by simp
  have step: "arch_loop repr dir sn sd (map PStr archs) w =
           (Inr (), after w (concat (map (pair_events repr dir sn sd) archs)))"
    using ok wr by (rule arch_loop_ok)
  have "set_loop repr dir (PList (map PStr archs)) sets
          (after w (concat (map (pair_events repr dir sn sd) archs))) =
        (Inr (), after (after w (concat (map (pair_events repr dir sn sd) archs)))
                   (run_events repr dir archs sets))"
    using rest Cons.prems(2) by (intro Cons.IH) simp_all
  with step x show ?case by (simp add: run_events_def)
qed

lemma parse_yaml_file_success:
  assumes "fst (parse_yaml_file safe_load f w) = Inr cfg"
  shows "parse_yaml_file safe_load f w = (Inr cfg, w)"
  using assms
  by (auto simp: parse_yaml_file_def error_def split: if_splits option.splits sum.splits)

lemma main_ok:
  assumes "fst (parse_yaml_file safe_load (yamlfile a) w) = Inr (PList (map PStr archs), PDict sets)"
    and "list_all (\<lambda>(sn, sd). set_ok sd) sets"
    and "path_exists w (setsdir a)"
    and "\<forall>sn\<in>set (map fst sets). \<forall>arch\<in>set archs.
           writable w (path_join (setsdir a) (sn @ ''-'' @ arch))"
  shows "main repr safe_load a w = (Inr (), after w (run_events repr (setsdir a) archs sets))"
  using assms(3) parse_yaml_file_success [OF assms(1)] set_loop_ok [OF assms(2) assms(4)]
  by (simp add: main_def)

lemma writes_of_pair_events:
  "writes_of (pair_events repr dir sn sd a) = [set_file repr dir sn sd a]"
  by (simp add: pair_events_def case_prod_unfold)

lemma writes_of_run_events:
  "writes_of (run_events repr dir archs sets) = expected_files repr dir archs sets"
proof -
  have inner: "writes_of (concat (map (pair_events repr dir sn sd) archs)) =
          map (set_file repr dir sn sd) archs" for sn sd
    by (induction archs) (simp_all add: writes_of_pair_events)
  show ?thesis
    unfolding run_events_def expected_files_def
    by (induction sets) (auto simp: inner)
qed

lemma pair_events_in_run:
  assumes "(sn, sd) \<in> set sets" and "arch \<in> set archs"
  shows "set (pair_events repr dir sn sd arch) \<subseteq> set (run_events repr dir archs sets)"
  using assms by (fastforce simp: run_events_def)

lemma path_join_relative:
  assumes "\<not> startswith sn ''/''"
  shows "path_join dir (sn @ ''-'' @ arch) =
           (if dir = [] \<or> last dir = CHR ''/'' then dir else dir @ ''/'') @ sn @ ''-'' @ arch"
  using assms by (cases sn) (simp_all add: path_join_def)

subsection \<open>A run is determined by what it reads\<close>

text \<open>
  For inputs of any shape: the outcome and the events of each loop are the same in all
  environments that allow the same writes, and those of \<^verbatim>\<open>main\<close> in all environments
  that moreover agree on the input file and on whether the output directory exists.
\<close>

lemma supported_packages_det:
  "\<exists>r evs. \<forall>w. supported_packages repr items arch w = (r, after w evs)"
proof (induction items)
  case Nil
  have "\<forall>w. supported_packages repr [] arch w = (Inr [], after w [])" by simp
  then show ?case by blast
next
  case (Cons x items)
  obtain n e where x: "x = (n, e)" by (cases x)
  from Cons.IH obtain r' evs' where
    IH: "\<And>w. supported_packages repr items arch w = (r', after w evs')" by blast
  let ?ev = "Stdout (py_str repr e @ '' '' @ py_str repr arch @ newline)"
  show ?case
  proof (cases "is_supported_result e arch")
    case (Inl err)
    then have "\<forall>w. supported_packages repr (x # items) arch w = (Inl err, after w [?ev])"
      by (simp add: x is_supported_after)
    then show ?thesis by blast
  next
    case (Inr ok)
    show ?thesis
    proof (cases ok)
      case False
      with Inr have "\<forall>w. supported_packages repr (x # items) arch w = (r', after w (?ev # evs'))"
        by (simp add: x is_supported_after IH)
      then show ?thesis by blast
    next
      case True
      show ?thesis
      proof (cases "make_atom repr n e")
        case (Inl err)
        with Inr True
        have "\<forall>w. supported_packages repr (x # items) arch w = (Inl err, after w [?ev])"
          by (simp add: x is_supported_after)
        then show ?thesis by blast
      next
        case atom: (Inr atom)
        show ?thesis
        proof (cases r')
          case (Inl err)
          with Inr True atom
          have "\<forall>w. supported_packages repr (x # items) arch w = (Inl err, after w (?ev # evs'))"
            by (simp add: x is_supported_after IH)
          then show ?thesis by blast
        next
          case atoms: (Inr atoms)
          with Inr True atom
          have "\<forall>w. supported_packages repr (x # items) arch w =
                  (Inr (atom # atoms), after w (?ev # evs'))"
            by (simp add: x is_supported_after IH)
          then show ?thesis by blast
        qed
      qed
    qed
  qed
qed

lemma write_set_file_det:
  "\<exists>r evs. \<forall>w. writable w = W \<longrightarrow> write_set_file repr dir sn sd arch w = (r, after w evs)"
proof (cases "py_getitem sd ''packages''")
  case (Inl err)
  then have "\<forall>w. writable w = W \<longrightarrow> write_set_file repr dir sn sd arch w = (Inl err, after w [])"
    by (simp add: write_set_file_def)
  then show ?thesis by blast
next
  case (Inr packages)
  show ?thesis
  proof (cases "py_items packages")
    case (Inl err)
    with Inr
    have "\<forall>w. writable w = W \<longrightarrow> write_set_file repr dir sn sd arch w = (Inl err, after w [])"
      by (simp add: write_set_file_def)
    then show ?thesis by blast
  next
    case items: (Inr items)
    obtain r1 e1 where sp: "\<And>w. supported_packages repr items arch w = (r1, after w e1)"
      using supported_packages_det by blast
    show ?thesis
    proof (cases r1)
      case (Inl err)
      with Inr items sp
      have "\<forall>w. writable w = W \<longrightarrow> write_set_file repr dir sn sd arch w = (Inl err, after w e1)"
        by (simp add: write_set_file_def)
      then show ?thesis by blast
    next
      case atoms: (Inr atoms)
      let ?p = "path_join dir (sn @ ''-'' @ py_str repr arch)"
      show ?thesis
      proof (cases "W ?p")
        case True
        with Inr items sp atoms
        have "\<forall>w. writable w = W \<longrightarrow> write_set_file repr dir sn sd arch w =
                (Inr (), after w (e1 @ [WriteFile ?p (concat atoms),
                                        Stdout (''Created set file '' @ ?p @ ''.'' @ newline)]))"
          by (simp add: write_set_file_def Let_def write_lines_after emit_Stdout)
        then show ?thesis by blast
      next
        case False
        with Inr items sp atoms
        have "\<forall>w. writable w = W \<longrightarrow> write_set_file repr dir sn sd arch w =
                (Inl OSError, after w e1)"
          by (simp add: write_set_file_def Let_def write_lines_after)
        then show ?thesis by blast
      qed
    qed
  qed
qed

lemma arch_loop_det:
  "\<exists>r evs. \<forall>w. writable w = W \<longrightarrow> arch_loop repr dir sn sd archs w = (r, after w evs)"
proof (induction archs)
  case Nil
  have "\<forall>w. writable w = W \<longrightarrow> arch_loop repr dir sn sd [] w = (Inr (), after w [])" by simp
  then show ?case by blast
next
  case (Cons arch archs)
  obtain r1 e1 where
    step: "\<And>w. writable w = W \<Longrightarrow> write_set_file repr dir sn sd arch w = (r1, after w e1)"
    using write_set_file_det [of W repr dir sn sd arch] by blast
  from Cons.IH obtain r2 e2 where
    IH: "\<And>w. writable w = W \<Longrightarrow> arch_loop repr dir sn sd archs w = (r2, after w e2)" by blast
  show ?case
  proof (cases r1)
    case (Inl err)
    then have "\<forall>w. writable w = W \<longrightarrow>
                 arch_loop repr dir sn sd (arch # archs) w = (Inl err, after w e1)"
      by (simp add: step)
    then show ?thesis by blast
  next
    case (Inr u)
    then have "\<forall>w. writable w = W \<longrightarrow>
                 arch_loop repr dir sn sd (arch # archs) w = (r2, after w (e1 @ e2))"
      by (simp add: step IH)
    then show ?thesis by blast
  qed
qed

lemma set_loop_det:
  "\<exists>r evs. \<forall>w. writable w = W \<longrightarrow> set_loop repr dir archs sets w = (r, after w evs)"
proof (induction sets)
  case Nil
  have "\<forall>w. writable w = W \<longrightarrow> set_loop repr dir archs [] w = (Inr (), after w [])" by simp
  then show ?case by blast
next
  case (Cons x sets)
  obtain sn sd where x: "x = (sn, sd)" by (cases x)
  from Cons.IH obtain r2 e2 where
    IH: "\<And>w. writable w = W \<Longrightarrow> set_loop repr dir archs sets w = (r2, after w e2)" by blast
  show ?case
  proof (cases "py_iter archs")
    case (Inl err)
    then have "\<forall>w. writable w = W \<longrightarrow>
                 set_loop repr dir archs (x # sets) w = (Inl err, after w [])"
      by (simp add: x)
    then show ?thesis by blast
  next
    case (Inr arch_list)
    obtain r1 e1 where
      step: "\<And>w. writable w = W \<Longrightarrow> arch_loop repr dir sn sd arch_list w = (r1, after w e1)"
      using arch_loop_det [of W repr dir sn sd arch_list] by blast
    show ?thesis
    proof (cases r1)
      case (Inl err)
      with Inr have "\<forall>w. writable w = W \<longrightarrow>
                   set_loop repr dir archs (x # sets) w = (Inl err, after w e1)"
        by (simp add: x step)
      then show ?thesis by blast
    next
      case u: (Inr u)
      with Inr have "\<forall>w. writable w = W \<longrightarrow>
                   set_loop repr dir archs (x # sets) w = (r2, after w (e1 @ e2))"
        by (simp add: x step IH)
      then show ?thesis by blast
    qed
  qed
qed

lemma parse_yaml_file_det:
  "\<exists>r evs. writes_of evs = [] \<and> (\<forall>cfg. r = Inr cfg \<longrightarrow> evs = []) \<and>
     (\<forall>w. files w f = c \<and> (f \<in> dirs w) = d \<longrightarrow>
        parse_yaml_file safe_load f w = (r, after w evs))"
proof (cases c)
  case None
  show ?thesis
  proof (cases d)
    case True
    with None have "\<forall>w. files w f = c \<and> (f \<in> dirs w) = d \<longrightarrow>
        parse_yaml_file safe_load f w = (Inl OSError, after w [])"
      by (auto simp: parse_yaml_file_def path_exists_def)
    then show ?thesis by (intro exI [of _ "Inl OSError"] exI [of _ "[]"]) simp
  next
    case False
    let ?ev = "Stderr (''ERROR: '' @ (''input file '' @ f @ '' does not exist!'') @ newline)"
    from None False have "\<forall>w. files w f = c \<and> (f \<in> dirs w) = d \<longrightarrow>
        parse_yaml_file safe_load f w = (Inl (SystemExit 1), after w [?ev])"
      by (auto simp: parse_yaml_file_def path_exists_def error_def emit_Stderr)
    then show ?thesis by (intro exI [of _ "Inl (SystemExit 1)"] exI [of _ "[?ev]"]) simp
  qed
next
  case (Some content)
  then have ex: "files w f = c \<Longrightarrow> path_exists w f" for w
    by (auto simp: path_exists_def)
  show ?thesis
  proof (cases "safe_load content")
    case (Inl diagnostic)
    let ?ev = "Stderr (''ERROR: '' @ (''YAML file could not be parsed.'' @ newline @ diagnostic)
                 @ newline)"
    from Some Inl ex have "\<forall>w. files w f = c \<and> (f \<in> dirs w) = d \<longrightarrow>
        parse_yaml_file safe_load f w = (Inl (SystemExit 1), after w [?ev])"
      by (auto simp: parse_yaml_file_def error_def emit_Stderr)
    then show ?thesis by (intro exI [of _ "Inl (SystemExit 1)"] exI [of _ "[?ev]"]) simp
  next
    case (Inr y)
    let ?r = "case py_getitem y ''eessi_archs'' of
                Inl e \<Rightarrow> Inl e
              | Inr archs \<Rightarrow>
                  (case py_getitem y ''eessi_sets'' of
                     Inl e \<Rightarrow> Inl e
                   | Inr sets \<Rightarrow> Inr (archs, sets))"
    from Some Inr ex have "\<forall>w. files w f = c \<and> (f \<in> dirs w) = d \<longrightarrow>
        parse_yaml_file safe_load f w = (?r, after w [])"
      by (auto simp: parse_yaml_file_def split: sum.splits)
    then show ?thesis by (intro exI [of _ ?r] exI [of _ "[]"]) simp
  qed
qed

lemma main_det:
  "\<exists>r evs. \<forall>w. writable w = W \<and> files w (yamlfile a) = c \<and> (yamlfile a \<in> dirs w) = d \<and>
       path_exists w (setsdir a) = x \<longrightarrow>
     main repr safe_load a w = (r, after w evs)"
proof -
  obtain r0 e0 where
    nil: "\<And>cfg. r0 = Inr cfg \<Longrightarrow> e0 = []"
    and parse: "\<And>w. files w (yamlfile a) = c \<and> (yamlfile a \<in> dirs w) = d \<Longrightarrow>
        parse_yaml_file safe_load (yamlfile a) w = (r0, after w e0)"
    using parse_yaml_file_det [of "yamlfile a" c d safe_load] by blast
  show ?thesis
  proof (cases r0)
    case (Inl err)
    then have "\<forall>w. writable w = W \<and> files w (yamlfile a) = c \<and> (yamlfile a \<in> dirs w) = d \<and>
       path_exists w (setsdir a) = x \<longrightarrow> main repr safe_load a w = (Inl err, after w e0)"
      by (simp add: main_def parse)
    then show ?thesis by blast
  next
    case (Inr cfg)
    obtain archs sets where cfg: "cfg = (archs, sets)" by (cases cfg)
    from Inr nil have e0: "e0 = []" by simp
    show ?thesis
    proof (cases x)
      case False
      let ?ev = "Stderr (''ERROR: '' @ (''output directory '' @ setsdir a @ '' does not exist.'')
                   @ newline)"
      from False Inr cfg e0
      have "\<forall>w. writable w = W \<and> files w (yamlfile a) = c \<and> (yamlfile a \<in> dirs w) = d \<and>
         path_exists w (setsdir a) = x \<longrightarrow>
         main repr safe_load a w = (Inl (SystemExit 1), after w [?ev])"
        by (simp add: main_def parse error_def emit_Stderr)
      then show ?thesis by blast
    next
      case True
      show ?thesis
      proof (cases "py_items sets")
        case (Inl err)
        with True Inr cfg e0
        have "\<forall>w. writable w = W \<and> files w (yamlfile a) = c \<and> (yamlfile a \<in> dirs w) = d \<and>
           path_exists w (setsdir a) = x \<longrightarrow> main repr safe_load a w = (Inl err, after w [])"
          by (simp add: main_def parse)
        then show ?thesis by blast
      next
        case items: (Inr set_items)
        obtain r1 e1 where
          loop: "\<And>w. writable w = W \<Longrightarrow>
                   set_loop repr (setsdir a) archs set_items w = (r1, after w e1)"
          using set_loop_det [of W repr "setsdir a" archs set_items] by blast
        from True Inr cfg e0 items
        have "\<forall>w. writable w = W \<and> files w (yamlfile a) = c \<and> (yamlfile a \<in> dirs w) = d \<and>
           path_exists w (setsdir a) = x \<longrightarrow> main repr safe_load a w = (r1, after w e1)"
          by (simp add: main_def parse loop)
        then show ?thesis by blast
      qed
    qed
  qed
qed

lemma main_no_dir:
  assumes "\<not> path_exists w (setsdir a)"
  shows "\<exists>e evs. main repr safe_load a w = (Inl e, after w evs) \<and> writes_of evs = []"
proof -
  obtain r0 e0 where
    nowr: "writes_of e0 = []" and nil: "\<And>cfg. r0 = Inr cfg \<Longrightarrow> e0 = []"
    and parse: "parse_yaml_file safe_load (yamlfile a) w = (r0, after w e0)"
    using parse_yaml_file_det [of "yamlfile a" "files w (yamlfile a)" "yamlfile a \<in> dirs w" safe_load]
    by blast
  show ?thesis
  proof (cases r0)
    case (Inl err)
    with parse nowr show ?thesis by (auto simp: main_def)
  next
    case (Inr cfg)
    from Inr nil have "e0 = []" by simp
    let ?ev = "Stderr (''ERROR: '' @ (''output directory '' @ setsdir a @ '' does not exist.'')
                 @ newline)"
    from \<open>e0 = []\<close> Inr parse assms
    have "main repr safe_load a w = (Inl (SystemExit 1), after w [?ev])"
      by (simp add: main_def error_def emit_Stderr split: prod.splits)
    moreover have "writes_of [?ev] = []" by simp
    ultimately show ?thesis by blast
  qed
qed

subsection \<open>The orchestrator\<close>

text \<open>
  Claim C6.  On a configuration of the data model, with the output directory present and
  the set files writable, \<^verbatim>\<open>main\<close> succeeds, and the files it writes are, in order, one
  per set (outer loop, loader order) and architecture (inner loop, loader order): the
  file \<open>set-arch\<close> joined to the output directory, holding one atom per line for exactly
  the packages of the set, in declaration order, for which \<^verbatim>\<open>is_supported\<close> returns
  true.  Each write replaces the file's content.  The joined path is the directory, a
  slash and the file name, unless the set name starts with a slash.
\<close>

theorem main_writes_set_files:
  assumes "fst (parse_yaml_file safe_load (yamlfile a) w) = Inr (PList (map PStr archs), PDict sets)"
    and "list_all (\<lambda>(sn, sd). set_ok sd) sets"
    and "path_exists w (setsdir a)"
    and "\<forall>sn\<in>set (map fst sets). \<forall>arch\<in>set archs.
           writable w (path_join (setsdir a) (sn @ ''-'' @ arch))"
  shows "fst (main repr safe_load a w) = Inr () \<and>
         writes_of (drop (length (trace w)) (trace (snd (main repr safe_load a w)))) =
           expected_files repr (setsdir a) archs sets \<and>
         files (snd (main repr safe_load a w)) =
           foldl (\<lambda>g (p, c). g(p \<mapsto> c)) (files w) (expected_files repr (setsdir a) archs sets) \<and>
         (\<forall>sn arch. \<not> startswith sn ''/'' \<longrightarrow>
            path_join (setsdir a) (sn @ ''-'' @ arch) =
              (if setsdir a = [] \<or> last (setsdir a) = CHR ''/'' then setsdir a
               else setsdir a @ ''/'') @ sn @ ''-'' @ arch)"
proof -
  have run: "main repr safe_load a w = (Inr (), after w (run_events repr (setsdir a) archs sets))"
    using assms by (rule main_ok)
  have names: "\<forall>sn arch. \<not> startswith sn ''/'' \<longrightarrow>
            path_join (setsdir a) (sn @ ''-'' @ arch) =
              (if setsdir a = [] \<or> last (setsdir a) = CHR ''/'' then setsdir a
               else setsdir a @ ''/'') @ sn @ ''-'' @ arch"
    using path_join_relative by blast
  from run have "fst (main repr safe_load a w) = Inr ()"
    and "writes_of (drop (length (trace w)) (trace (snd (main repr safe_load a w)))) =
           expected_files repr (setsdir a) archs sets"
    and "files (snd (main repr safe_load a w)) =
           foldl (\<lambda>g (p, c). g(p \<mapsto> c)) (files w) (expected_files repr (setsdir a) archs sets)"
    by (simp_all add: writes_of_run_events fold_apply_event)
  with names show ?thesis by blast
qed

theorem main_writes_set_files_witness:
  "fst (parse_yaml_file safe_load_example ''sets.yml'' (world_example config_example)) =
     Inr (PList (map PStr [''x86_64'', ''aarch64'']),
          PDict [(''base'', PDict [(''packages'', PDict [(''bar'', PNone)])])]) \<and>
   set_ok (PDict [(''packages'', PDict [(''bar'', PNone)])]) \<and>
   path_exists (world_example config_example) ''out'' \<and>
   fst (main repr_example safe_load_example (args_example ''out'') (world_example config_example)) = Inr () \<and>
   writes_of (trace (snd (main repr_example safe_load_example (args_example ''out'')
                            (world_example config_example))))
     = [(''out/base-x86_64'', ''bar'' @ newline), (''out/base-aarch64'', ''bar'' @ newline)] \<and>
   files (snd (main repr_example safe_load_example (args_example ''out'') (world_example config_example)))
     = [''sets.yml'' \<mapsto> config_example,
        ''out/base-x86_64'' \<mapsto> ''bar'' @ newline,
        ''out/base-aarch64'' \<mapsto> ''bar'' @ newline]"
  using main_writes_set_files [of safe_load_example "args_example ''out''" "world_example config_example"
      "[''x86_64'', ''aarch64'']" "[(''base'', PDict [(''packages'', PDict [(''bar'', PNone)])])]"
      repr_example]
  by (simp add: parse_yaml_file_def path_exists_def world_example_def safe_load_example_def config_example_def config_exclude_example_def
      args_example_def set_ok_def expected_files_def set_file_def atoms_for_def packages_of_def
      atom_text_def make_atom_def is_supported_result_def path_join_def)

text \<open>
  Claim C7.  When the output directory does not exist, \<^verbatim>\<open>main\<close> fails without writing
  any file, and the files are as before; once the loader has returned the configuration,
  the failure is the error \<open>output directory ... does not exist.\<close> with exit status 1.
\<close>

theorem main_missing_output_dir:
  assumes "\<not> path_exists w (setsdir a)"
  shows "(\<forall>cfg. fst (parse_yaml_file safe_load (yamlfile a) w) = Inr cfg \<longrightarrow>
            main repr safe_load a w =
              (Inl (SystemExit 1),
               emit (Stderr (''ERROR: output directory '' @ setsdir a @ '' does not exist.''
                             @ newline)) w)) \<and>
         (\<exists>e. fst (main repr safe_load a w) = Inl e) \<and>
         files (snd (main repr safe_load a w)) = files w \<and>
         writes_of (trace (snd (main repr safe_load a w))) = writes_of (trace w)"
proof (intro conjI allI impI)
  fix cfg
  assume "fst (parse_yaml_file safe_load (yamlfile a) w) = Inr cfg"
  then have "parse_yaml_file safe_load (yamlfile a) w = (Inr cfg, w)"
    by (rule parse_yaml_file_success)
  with assms show "main repr safe_load a w =
      (Inl (SystemExit 1),
       emit (Stderr (''ERROR: output directory '' @ setsdir a @ '' does not exist.'' @ newline)) w)"
    by (simp add: main_def error_def split: prod.splits)
next
  from main_no_dir [OF assms, of repr safe_load] obtain e evs where
    run: "main repr safe_load a w = (Inl e, after w evs)" and nowr: "writes_of evs = []"
    by blast
  from run show "\<exists>e. fst (main repr safe_load a w) = Inl e" by simp
  from run files_after_no_writes [OF nowr, of w]
  show "files (snd (main repr safe_load a w)) = files w"
    by simp
  from run nowr show "writes_of (trace (snd (main repr safe_load a w))) = writes_of (trace w)"
    by simp
qed

theorem main_missing_output_dir_witness:
  "\<not> path_exists (world_example config_example) ''nowhere'' \<and>
   fst (main repr_example safe_load_example (args_example ''nowhere'')
          (world_example config_example))
     = Inl (SystemExit 1) \<and>
   trace (snd (main repr_example safe_load_example (args_example ''nowhere'')
          (world_example config_example)))
     = [Stderr (''ERROR: output directory nowhere does not exist.'' @ newline)] \<and>
   files (snd (main repr_example safe_load_example (args_example ''nowhere'')
          (world_example config_example)))
     = [''sets.yml'' \<mapsto>
          config_example]"
  using main_missing_output_dir [of
      "world_example config_example"
      "args_example ''nowhere''" safe_load_example repr_example]
  by (simp add: parse_yaml_file_def path_exists_def world_example_def safe_load_example_def config_example_def config_exclude_example_def
      args_example_def emit_def)

text \<open>
  Claim C8.  A second run with the same command line, on the environment the first run
  left and with the input file unchanged by it, ends as the first did and leaves every
  file as the first run left it.  What a run writes depends only on the input file, the
  existence of the output directory and the permissions, not on the files already there,
  and a write leaves exactly the written lines in the file.
\<close>

theorem main_idempotent:
  assumes "files (snd (main repr safe_load a w)) (yamlfile a) = files w (yamlfile a)"
  shows "fst (main repr safe_load a (snd (main repr safe_load a w))) = fst (main repr safe_load a w) \<and>
         files (snd (main repr safe_load a (snd (main repr safe_load a w)))) =
           files (snd (main repr safe_load a w)) \<and>
         (\<forall>v. writable v = writable w \<and> files v (yamlfile a) = files w (yamlfile a) \<and>
               (yamlfile a \<in> dirs v) = (yamlfile a \<in> dirs w) \<and>
               path_exists v (setsdir a) = path_exists w (setsdir a) \<longrightarrow>
            writes_of (drop (length (trace v)) (trace (snd (main repr safe_load a v)))) =
            writes_of (drop (length (trace w)) (trace (snd (main repr safe_load a w))))) \<and>
         (\<forall>v p lines. writable v p \<longrightarrow>
            files (snd (write_lines p lines v)) p = Some (concat lines))"
proof -
  obtain r evs where det:
    "\<And>v. writable v = writable w \<and> files v (yamlfile a) = files w (yamlfile a) \<and>
          (yamlfile a \<in> dirs v) = (yamlfile a \<in> dirs w) \<and>
          path_exists v (setsdir a) = path_exists w (setsdir a) \<Longrightarrow>
        main repr safe_load a v = (r, after v evs)"
    using main_det [of "writable w" a "files w (yamlfile a)" "yamlfile a \<in> dirs w"
        "path_exists w (setsdir a)" repr safe_load]
    by blast
  have run1: "main repr safe_load a w = (r, after w evs)"
    by (rule det) simp
  have same_input: "files (after w evs) (yamlfile a) = files w (yamlfile a)"
    using assms run1 by simp
  have same_dir: "path_exists (after w evs) (setsdir a) = path_exists w (setsdir a)"
  proof (cases "path_exists w (setsdir a)")
    case True
    then show ?thesis by (simp add: path_exists_after)
  next
    case False
    from main_no_dir [OF False, of repr safe_load] obtain e evs' where
      "main repr safe_load a w = (Inl e, after w evs')" and nowr: "writes_of evs' = []"
      by blast
    with run1 have "after w evs = after w evs'" by simp
    then have "evs = evs'" by (rule after_inj)
    with files_after_no_writes [OF nowr, of w] show ?thesis
      by (simp add: path_exists_def)
  qed
  have run2: "main repr safe_load a (after w evs) = (r, after (after w evs) evs)"
    using same_input same_dir by (intro det) simp
  have part1: "fst (main repr safe_load a (snd (main repr safe_load a w))) =
               fst (main repr safe_load a w)"
    using run1 run2 by simp
  have part2: "files (snd (main repr safe_load a (snd (main repr safe_load a w)))) =
               files (snd (main repr safe_load a w))"
    using run1 run2 by (simp add: fold_apply_event_idem)
  have part3: "\<forall>v. writable v = writable w \<and> files v (yamlfile a) = files w (yamlfile a) \<and>
               (yamlfile a \<in> dirs v) = (yamlfile a \<in> dirs w) \<and>
               path_exists v (setsdir a) = path_exists w (setsdir a) \<longrightarrow>
            writes_of (drop (length (trace v)) (trace (snd (main repr safe_load a v)))) =
            writes_of (drop (length (trace w)) (trace (snd (main repr safe_load a w))))"
    using det run1 by simp
  have part4: "\<forall>v p lines. writable v p \<longrightarrow>
            files (snd (write_lines p lines v)) p = Some (concat lines)"
    by (simp add: write_lines_after)
  from part1 part2 part3 part4 show ?thesis by blast
qed

theorem main_idempotent_witness:
  "files (snd (main repr_example safe_load_example (args_example ''out'')
         (world_example config_example)))
      ''sets.yml'' =
   files (world_example config_example)
      ''sets.yml'' \<and>
   files (snd (main repr_example safe_load_example (args_example ''out'')
     (snd (main repr_example safe_load_example (args_example ''out'')
         (world_example config_example))))) =
   files (snd (main repr_example safe_load_example (args_example ''out'')
         (world_example config_example)))"
  using main_idempotent [of repr_example safe_load_example "args_example ''out''"
         "world_example config_example"]
  by (simp add: main_def parse_yaml_file_def path_exists_def world_example_def
      safe_load_example_def config_example_def config_exclude_example_def args_example_def
      write_set_file_def write_lines_def Let_def
      is_supported_def is_supported_result_def make_atom_def emit_def path_join_def)

text \<open>
  Claim C9.  Under the conditions of a successful run, for a set and an architecture on
  which \<^verbatim>\<open>is_supported\<close> returns true for no package of the set, the set file is still
  written, with empty content, and exists afterwards.
\<close>

theorem empty_set_file_written:
  assumes "fst (parse_yaml_file safe_load (yamlfile a) w) = Inr (PList (map PStr archs), PDict sets)"
    and "list_all (\<lambda>(sn, sd). set_ok sd) sets"
    and "path_exists w (setsdir a)"
    and "\<forall>sn\<in>set (map fst sets). \<forall>arch\<in>set archs.
           writable w (path_join (setsdir a) (sn @ ''-'' @ arch))"
    and "(sn, sd) \<in> set sets" and "arch \<in> set archs"
    and "\<forall>(n, e)\<in>set (packages_of sd). is_supported_result e (PStr arch) \<noteq> Inr True"
  shows "fst (main repr safe_load a w) = Inr () \<and>
         WriteFile (path_join (setsdir a) (sn @ ''-'' @ arch)) [] \<in>
           set (drop (length (trace w)) (trace (snd (main repr safe_load a w)))) \<and>
         path_join (setsdir a) (sn @ ''-'' @ arch) \<in> dom (files (snd (main repr safe_load a w)))"
proof -
  let ?p = "path_join (setsdir a) (sn @ ''-'' @ arch)"
  have run: "main repr safe_load a w = (Inr (), after w (run_events repr (setsdir a) archs sets))"
    using assms(1-4) by (rule main_ok)
  from assms(7) have "filter (\<lambda>(n, e). is_supported_result e (PStr arch) = Inr True) (packages_of sd) = []"
    by (auto simp: filter_empty_conv)
  then have "set_file repr (setsdir a) sn sd arch = (?p, [])"
    by (simp add: set_file_def atoms_for_def)
  then have "WriteFile ?p [] \<in> set (pair_events repr (setsdir a) sn sd arch)"
    by (simp add: pair_events_def)
  with pair_events_in_run [OF assms(5,6)]
  have mem: "WriteFile ?p [] \<in> set (run_events repr (setsdir a) archs sets)" by blast
  from mem have "?p \<in> dom (fold apply_event (run_events repr (setsdir a) archs sets) (files w))"
    by (rule WriteFile_in_dom)
  with run mem show ?thesis by simp
qed

theorem empty_set_file_written_witness:
  "is_supported_result (PDict [(''exclude_on'', PList [PStr ''aarch64''])]) (PStr ''aarch64'')
     = Inr False \<and>
   WriteFile ''out/base-aarch64'' [] \<in>
     set (trace (snd (main repr_example safe_load_example (args_example ''out'')
       (world_example config_exclude_example)))) \<and>
   files (snd (main repr_example safe_load_example (args_example ''out'')
       (world_example config_exclude_example)))
     ''out/base-aarch64'' = Some []"
  using empty_set_file_written [of safe_load_example "args_example ''out''"
      "world_example config_exclude_example"
      "[''x86_64'', ''aarch64'']"
      "[(''base'', PDict [(''packages'', PDict [(''bar'', PDict [(''exclude_on'', PList [PStr ''aarch64''])])])])]"
      "''base''" "PDict [(''packages'', PDict [(''bar'', PDict [(''exclude_on'', PList [PStr ''aarch64''])])])]"
      "''aarch64''" repr_example]
  by (simp add: main_def parse_yaml_file_def path_exists_def world_example_def
      safe_load_example_def config_example_def config_exclude_example_def args_example_def
      write_set_file_def write_lines_def Let_def
      is_supported_def is_supported_result_def make_atom_def emit_def path_join_def
      set_ok_def packages_of_def list_or_absent_def str_or_absent_def)

end
